theory Spec2Isabelle
  imports
    Main
    "HOL-Library.Char_ord"
    "HOL-Library.List_Lexorder"
    "HOL-Library.Sublist"
    "HOL-Library.AList"
begin

section \<open>Go values used by the client\<close>

text \<open>
  A Go \<^verbatim>\<open>string\<close> is a sequence of bytes: \<^typ>\<open>string\<close>. A Go \<^verbatim>\<open>int\<close> is carried as
  \<^typ>\<open>int\<close>: the client only compares the two integer fields of a query with zero and
  prints them, so no arithmetic can overflow. A pointer that may be nil is an
  \<^typ>\<open>'a option\<close>. The read/write lock of the client orders concurrent accesses and has
  no sequential behaviour; it is left out.
\<close>

datatype error =
    errEmptyAPIKey
  | Errorf string
  | TransportError string
  | ReadError string
  | UnmarshalError string

text \<open>
  A Go map is either the nil map or an allocated table. Indexing either of them with a
  key that is not stored yields the zero value of the element type, here the empty
  string.
\<close>

datatype ('k, 'v) gomap = NilMap | MakeMap "'k \<rightharpoonup> 'v"

fun index :: "(string, string) gomap \<Rightarrow> string \<Rightarrow> string" where
  "index NilMap k = ''''"
| "index (MakeMap m) k = (case m k of None \<Rightarrow> '''' | Some v \<Rightarrow> v)"

fun hasKey :: "('k, 'v) gomap \<Rightarrow> 'k \<Rightarrow> bool" where
  "hasKey NilMap k = False"
| "hasKey (MakeMap m) k = (m k \<noteq> None)"

type_synonym LinksMap = "(string, string) gomap"

subsection \<open>\<^verbatim>\<open>strings.TrimSpace\<close>\<close>

text \<open>
  \<^verbatim>\<open>strings.TrimSpace\<close> removes the leading and then the trailing white space of a
  string, where white space is what \<^verbatim>\<open>unicode.IsSpace\<close> accepts. On the bytes of the
  string these are the UTF-8 encodings below: the six ASCII characters tab, line feed,
  vertical tab, form feed, carriage return and blank, then U+0085, U+00A0, U+1680,
  U+2000 to U+200A, U+2028, U+2029, U+202F, U+205F and U+3000.
\<close>

definition spaceRunes :: "string list" where
  "spaceRunes =
    [[CHR 0x09], [CHR 0x0A], [CHR 0x0B], [CHR 0x0C], [CHR 0x0D], [CHR 0x20],
     [CHR 0xC2, CHR 0x85], [CHR 0xC2, CHR 0xA0],
     [CHR 0xE1, CHR 0x9A, CHR 0x80],
     [CHR 0xE2, CHR 0x80, CHR 0x80], [CHR 0xE2, CHR 0x80, CHR 0x81],
     [CHR 0xE2, CHR 0x80, CHR 0x82], [CHR 0xE2, CHR 0x80, CHR 0x83],
     [CHR 0xE2, CHR 0x80, CHR 0x84], [CHR 0xE2, CHR 0x80, CHR 0x85],
     [CHR 0xE2, CHR 0x80, CHR 0x86], [CHR 0xE2, CHR 0x80, CHR 0x87],
     [CHR 0xE2, CHR 0x80, CHR 0x88], [CHR 0xE2, CHR 0x80, CHR 0x89],
     [CHR 0xE2, CHR 0x80, CHR 0x8A],
     [CHR 0xE2, CHR 0x80, CHR 0xA8], [CHR 0xE2, CHR 0x80, CHR 0xA9],
     [CHR 0xE2, CHR 0x80, CHR 0xAF],
     [CHR 0xE2, CHR 0x81, CHR 0x9F],
     [CHR 0xE3, CHR 0x80, CHR 0x80]]"

definition leadingSpace :: "string \<Rightarrow> string option" where
  "leadingSpace s = find (\<lambda>e. prefix e s) spaceRunes"

definition trailingSpace :: "string \<Rightarrow> string option" where
  "trailingSpace s = find (\<lambda>e. suffix e s) spaceRunes"

function TrimLeft :: "string \<Rightarrow> string" where
  "TrimLeft s =
     (case leadingSpace s of
        None \<Rightarrow> s
      | Some e \<Rightarrow> TrimLeft (drop (length e) s))"
  by pat_completeness auto
termination
proof (relation "measure length")
  fix s e :: string
  assume "leadingSpace s = Some e"
  then have "e \<in> set spaceRunes" and "prefix e s"
    by (auto simp: leadingSpace_def find_Some_iff)
  then have "e \<noteq> []" and "length e \<le> length s"
    by (auto simp: spaceRunes_def prefix_length_le)
  then have "length s - length e < length s"
    by (cases e) auto
  then show "(drop (length e) s, s) \<in> measure length"
    by simp
qed simp

function TrimRight :: "string \<Rightarrow> string" where
  "TrimRight s =
     (case trailingSpace s of
        None \<Rightarrow> s
      | Some e \<Rightarrow> TrimRight (take (length s - length e) s))"
  by pat_completeness auto
termination
proof (relation "measure length")
  fix s e :: string
  assume "trailingSpace s = Some e"
  then have "e \<in> set spaceRunes" and "suffix e s"
    by (auto simp: trailingSpace_def find_Some_iff)
  then have "e \<noteq> []" and "length e \<le> length s"
    by (auto simp: spaceRunes_def suffix_length_le)
  then have "length s - length e < length s"
    by (cases e) auto
  then show "(take (length s - length e) s, s) \<in> measure length"
    by simp
qed simp

declare TrimLeft.simps [simp del]
declare TrimRight.simps [simp del]

definition TrimSpace :: "string \<Rightarrow> string" where
  "TrimSpace s = TrimRight (TrimLeft s)"

section \<open>The client and its API key\<close>

record Client =
  version :: string
  apiKey :: string

definition SetAPIKey :: "string \<Rightarrow> Client \<Rightarrow> Client" where
  "SetAPIKey key c = c\<lparr>apiKey := TrimSpace key\<rparr>"

definition SetVersion :: "string \<Rightarrow> Client \<Rightarrow> Client" where
  "SetVersion v c = c\<lparr>version := v\<rparr>"

definition APIKey :: "Client \<Rightarrow> string" where
  "APIKey c = apiKey c"

definition defaultAPIVersion :: string where
  "defaultAPIVersion = ''1.0''"

definition APIVersion :: "Client \<Rightarrow> string" where
  "APIVersion c = (if version c = '''' then defaultAPIVersion else version c)"

text \<open>
  The loop of \<^verbatim>\<open>envOrDefault\<close> over the fallbacks: \<^verbatim>\<open>retr\<close> is overwritten by each
  trimmed fallback, and the loop is left at the first one that is not empty.
\<close>

fun tryFallbacks :: "string \<Rightarrow> string list \<Rightarrow> string" where
  "tryFallbacks retr [] = retr"
| "tryFallbacks retr (fallback # fallbacks) =
     (let retr' = TrimSpace fallback
      in if retr' \<noteq> '''' then retr' else tryFallbacks retr' fallbacks)"

text \<open>The process environment is a function from names to values; an unset name reads as
  the empty string, as \<^verbatim>\<open>os.Getenv\<close> returns it.\<close>

definition envOrDefault :: "(string \<Rightarrow> string) \<Rightarrow> string \<Rightarrow> string list \<Rightarrow> string" where
  "envOrDefault getenv key fallbacks =
     (let retr = TrimSpace (getenv key)
      in if retr \<noteq> '''' then retr else tryFallbacks retr fallbacks)"

definition newClient :: Client where
  "newClient = \<lparr>version = '''', apiKey = ''''\<rparr>"

definition NewDefaultClient :: "(string \<Rightarrow> string) \<Rightarrow> string list \<Rightarrow> error + Client" where
  "NewDefaultClient getenv apiKeysToTry =
     (let client = SetAPIKey (envOrDefault getenv ''FANDANGO_API_KEY'' apiKeysToTry) newClient
      in if APIKey client = '''' then Inl errEmptyAPIKey else Inr client)"

section \<open>Link resolution\<close>

text \<open>The receiver of \<^verbatim>\<open>GetNextURL\<close> is a pointer to a links map, which may be nil.\<close>

fun GetNextURL :: "LinksMap option \<Rightarrow> string" where
  "GetNextURL None = ''''"
| "GetNextURL (Some l) = index l ''next''"

section \<open>Building the request URL\<close>

datatype chan = NilChan | Chan

record UpcomingMovieSearch =
  ItemsPerPage :: int
  MaxPage :: int
  Country :: string
  Cancel :: chan

subsection \<open>\<^verbatim>\<open>fmt.Sprintf("%d", n)\<close>\<close>

function decimal :: "nat \<Rightarrow> string" where
  "decimal n =
     (if n < 10 then [''0123456789'' ! n]
      else decimal (n div 10) @ [''0123456789'' ! (n mod 10)])"
  by pat_completeness auto
termination
  by (relation "measure id") auto

declare decimal.simps [simp del]

definition formatInt :: "int \<Rightarrow> string" where
  "formatInt i = (if i < 0 then CHR ''-'' # decimal (nat (- i)) else decimal (nat i))"

subsection \<open>\<^verbatim>\<open>url.QueryEscape\<close> and \<^verbatim>\<open>url.Values\<close>\<close>

text \<open>
  \<^verbatim>\<open>url.QueryEscape\<close> keeps the ASCII letters and digits and the four characters
  \<^verbatim>\<open>-_.~\<close>, writes a blank as \<^verbatim>\<open>+\<close>, and writes every other byte as \<^verbatim>\<open>%\<close> followed by
  its two upper-case hexadecimal digits.
\<close>

definition unreserved :: "char \<Rightarrow> bool" where
  "unreserved c \<longleftrightarrow>
     (CHR ''a'' \<le> c \<and> c \<le> CHR ''z'') \<or> (CHR ''A'' \<le> c \<and> c \<le> CHR ''Z'') \<or>
     (CHR ''0'' \<le> c \<and> c \<le> CHR ''9'') \<or>
     c = CHR ''-'' \<or> c = CHR ''_'' \<or> c = CHR ''.'' \<or> c = CHR ''~''"

definition upperhex :: string where
  "upperhex = ''0123456789ABCDEF''"

definition escapeByte :: "char \<Rightarrow> string" where
  "escapeByte c =
     (if unreserved c then [c]
      else if c = CHR '' '' then ''+''
      else [CHR ''%'', upperhex ! (of_char c div 16), upperhex ! (of_char c mod 16)])"

definition QueryEscape :: "string \<Rightarrow> string" where
  "QueryEscape s = concat (map escapeByte s)"

text \<open>
  A \<^verbatim>\<open>url.Values\<close> is a map from a key to a list of values, kept here as an association
  list with one entry for each key. \<^verbatim>\<open>Set\<close> replaces the values of a key by one value;
  \<^verbatim>\<open>Encode\<close> writes \<^verbatim>\<open>key=value\<close> for each value, the keys in sorted order, joined by
  \<^verbatim>\<open>&\<close>.
\<close>

type_synonym Values = "(string \<times> string list) list"

definition ValuesSet :: "string \<Rightarrow> string \<Rightarrow> Values \<Rightarrow> Values" where
  "ValuesSet key val values = AList.update key [val] values"

fun join :: "string \<Rightarrow> string list \<Rightarrow> string" where
  "join sep [] = ''''"
| "join sep [x] = x"
| "join sep (x # y # ys) = x @ sep @ join sep (y # ys)"

definition Encode :: "Values \<Rightarrow> string" where
  "Encode values =
     join ''&''
       (concat (map (\<lambda>k. map (\<lambda>v. QueryEscape k @ ''='' @ QueryEscape v)
                              (case map_of values k of None \<Rightarrow> [] | Some vs \<Rightarrow> vs))
                    (sort (map fst values))))"

definition baseURL :: string where
  "baseURL = ''http://api.rottentomatoes.com/api/public''"

definition makeUpcomingMoviesURL :: "Client \<Rightarrow> UpcomingMovieSearch option \<Rightarrow> error + string" where
  "makeUpcomingMoviesURL c query =
     (let values = [(''apikey'', [apiKey c])];
          values =
            (case query of
               None \<Rightarrow> values
             | Some q \<Rightarrow>
                 (let values = (if ItemsPerPage q > 0
                                then ValuesSet ''page_limit'' (formatInt (ItemsPerPage q)) values
                                else values);
                      values = (if MaxPage q > 0
                                then ValuesSet ''page'' (formatInt (MaxPage q)) values
                                else values);
                      values = (if Country q \<noteq> ''''
                                then ValuesSet ''country'' (Country q) values
                                else values)
                  in values));
          fullURL = baseURL @ ''/v'' @ APIVersion c @ ''/lists/movies/upcoming/json?'' @ Encode values
      in Inr fullURL)"

text \<open>\<^verbatim>\<open>strings.Contains\<close>, to speak about the parts of a URL.\<close>

fun Contains :: "string \<Rightarrow> string \<Rightarrow> bool" where
  "Contains [] substr = (substr = [])"
| "Contains (c # s) substr = (prefix substr (c # s) \<or> Contains s substr)"

section \<open>Result pages\<close>

typedecl float32
typedecl any

record Star =
  Name :: string
  Id :: string
  Characters :: "string list"

record Movie =
  Title :: string
  Year :: int
  MPAARating :: string
  RuntimeMinutes :: float32
  CriticsConsensus :: string
  ReleaseDates :: "(string, string) gomap"
  Ratings :: "(string, any) gomap"
  Synopsis :: string
  Posters :: "(string, string) gomap"
  AbridgedCast :: "Star option list"
  MovieLinks :: LinksMap

record UpcomingMoviesResultPage =
  Total :: nat
  Movies :: "Movie option list"
  Links :: LinksMap
  LinkTemplate :: string

section \<open>Parsing a response\<close>

text \<open>
  Of an \<^verbatim>\<open>http.Response\<close> the parser reads the status code, the status text and the
  body. \<^term>\<open>Body\<close> is what \<^verbatim>\<open>ioutil.ReadAll\<close> returns for the body: the message of
  a read error, or the bytes. \<^verbatim>\<open>json.Unmarshal\<close> into a fresh page is a parameter of the
  parser: a function from the bytes to the message of a decoding error or to the page.
\<close>

record Response =
  StatusCode :: int
  Status :: string
  Body :: "string + string"

type_synonym unmarshal = "string \<Rightarrow> string + UpcomingMoviesResultPage"

definition statusOK :: "int \<Rightarrow> bool" where
  "statusOK code \<longleftrightarrow> code \<ge> 200 \<and> code \<le> 299"

definition parseUpcomingMoviesResponse ::
    "unmarshal \<Rightarrow> Response \<Rightarrow> error + UpcomingMoviesResultPage" where
  "parseUpcomingMoviesResponse Unmarshal res =
     (if \<not> statusOK (StatusCode res) then Inl (Errorf (Status res))
      else case Body res of
        Inl err \<Rightarrow> Inl (ReadError err)
      | Inr blob \<Rightarrow>
          (case Unmarshal blob of
             Inl err \<Rightarrow> Inl (UnmarshalError err)
           | Inr umpage \<Rightarrow> Inr umpage))"

section \<open>The pagination engine\<close>

text \<open>
  \<^verbatim>\<open>http.Get\<close> is a parameter: from the state of the network and a URL it gives the
  message of a transport error or a response, and the next state of the network.

  Each pass of the loop blocks in a \<^verbatim>\<open>select\<close> between a receive from the query's
  \<^verbatim>\<open>Cancel\<close> channel and a receive from the ticker. The environment of a run is the
  list of the cases that the successive \<^verbatim>\<open>select\<close>s take; when the list is used up the
  goroutine is blocked in its \<^verbatim>\<open>select\<close>. A nil \<^verbatim>\<open>Cancel\<close> channel is never ready,
  so a run with such a query has no \<^term>\<open>RecvCancel\<close>.

  The state of the goroutine holds its two variables \<^verbatim>\<open>dataURL\<close> and \<^verbatim>\<open>working\<close>, the
  pages sent on \<^verbatim>\<open>pagesChan\<close> so far, whether the channel has been closed, whether the
  goroutine has panicked, the URLs requested so far and the state of the network.
\<close>

type_synonym 'w transport = "'w \<Rightarrow> string \<Rightarrow> (string + Response) \<times> 'w"

datatype select_case = RecvCancel | RecvTick

record 'w engine =
  dataURL :: string
  working :: bool
  pagesChan :: "UpcomingMoviesResultPage list"
  closed :: bool
  panicked :: bool
  requests :: "string list"
  net :: 'w

text \<open>The body of the case for a tick.\<close>

definition tick :: "'w transport \<Rightarrow> unmarshal \<Rightarrow> 'w engine \<Rightarrow> 'w engine" where
  "tick httpGet Unmarshal s =
     (case httpGet (net s) (dataURL s) of
        (r, w') \<Rightarrow>
          (let s = s\<lparr>requests := requests s @ [dataURL s], net := w'\<rparr>
           in case r of
                Inl err \<Rightarrow> s\<lparr>working := False\<rparr>
              | Inr res \<Rightarrow>
                  (case parseUpcomingMoviesResponse Unmarshal res of
                     Inl err \<Rightarrow> s\<lparr>working := False\<rparr>
                   | Inr page \<Rightarrow>
                       (let s = s\<lparr>pagesChan := pagesChan s @ [page]\<rparr>;
                            s = s\<lparr>dataURL := GetNextURL (Some (Links page))\<rparr>
                        in if dataURL s = '''' then s\<lparr>working := False\<rparr> else s))))"

text \<open>
  One \<^verbatim>\<open>select\<close>. The \<^verbatim>\<open>break\<close> of the case for \<^verbatim>\<open>Cancel\<close> leaves the \<^verbatim>\<open>select\<close>, not
  the loop, and \<^verbatim>\<open>working\<close> is not assigned there.
\<close>

fun selectStmt :: "'w transport \<Rightarrow> unmarshal \<Rightarrow> select_case \<Rightarrow> 'w engine \<Rightarrow> 'w engine" where
  "selectStmt httpGet Unmarshal RecvCancel s = s"
| "selectStmt httpGet Unmarshal RecvTick s = tick httpGet Unmarshal s"

fun forWorking ::
    "'w transport \<Rightarrow> unmarshal \<Rightarrow> select_case list \<Rightarrow> 'w engine \<Rightarrow> 'w engine" where
  "forWorking httpGet Unmarshal [] s = s"
| "forWorking httpGet Unmarshal (ev # evs) s =
     (if working s then forWorking httpGet Unmarshal evs (selectStmt httpGet Unmarshal ev s)
      else s)"

text \<open>
  The goroutine. With a nil query the first \<^verbatim>\<open>select\<close> evaluates \<^verbatim>\<open>query.Cancel\<close> and
  panics before any case is taken. The deferred \<^verbatim>\<open>close\<close> runs when the loop is left and
  when the goroutine panics.
\<close>

definition goroutine ::
    "'w transport \<Rightarrow> unmarshal \<Rightarrow> UpcomingMovieSearch option \<Rightarrow> string \<Rightarrow> 'w \<Rightarrow>
     select_case list \<Rightarrow> 'w engine" where
  "goroutine httpGet Unmarshal query url w schedule =
     (let s = \<lparr>dataURL = url, working = True, pagesChan = [], closed = False,
                panicked = False, requests = [], net = w\<rparr>
      in case query of
           None \<Rightarrow> s\<lparr>closed := True, panicked := True\<rparr>
         | Some q \<Rightarrow>
             (let s = forWorking httpGet Unmarshal schedule s
              in s\<lparr>closed := \<not> working s\<rparr>))"

text \<open>
  \<^verbatim>\<open>UpcomingMovies\<close> returns an error, or the channel on which the goroutine sends; the
  channel is given by the run of the goroutine that feeds it.
\<close>

definition UpcomingMovies ::
    "'w transport \<Rightarrow> unmarshal \<Rightarrow> Client \<Rightarrow> UpcomingMovieSearch option \<Rightarrow> 'w \<Rightarrow>
     select_case list \<Rightarrow> error + 'w engine" where
  "UpcomingMovies httpGet Unmarshal c query w schedule =
     (if APIKey c = '''' then Inl errEmptyAPIKey
      else case makeUpcomingMoviesURL c query of
             Inl err \<Rightarrow> Inl err
           | Inr url \<Rightarrow> Inr (goroutine httpGet Unmarshal query url w schedule))"

section \<open>Notions used to state the properties\<close>

text \<open>
  The names of the query parameters of a URL: the text after the first question mark,
  split at every ampersand, each part cut at its first equals sign.
\<close>

fun splitOn :: "char \<Rightarrow> string \<Rightarrow> string list" where
  "splitOn sep [] = [[]]"
| "splitOn sep (c # cs) =
     (if c = sep then [] # splitOn sep cs
      else (case splitOn sep cs of [] \<Rightarrow> [[c]] | x # xs \<Rightarrow> (c # x) # xs))"

definition queryParams :: "string \<Rightarrow> string list" where
  "queryParams url =
     map (takeWhile (\<lambda>c. c \<noteq> CHR ''=''))
       (splitOn (CHR ''&'') (drop 1 (dropWhile (\<lambda>c. c \<noteq> CHR ''?'') url)))"

text \<open>
  A transport serves a chain of pages from a URL when the request for that URL is
  answered by a response that parses to the first page, every page but the last names
  under \<^verbatim>\<open>next\<close> the URL at which the rest of the chain is served, and the last page has
  no \<^verbatim>\<open>next\<close> entry.
\<close>

fun servesChain ::
    "'w transport \<Rightarrow> unmarshal \<Rightarrow> 'w \<Rightarrow> string \<Rightarrow> UpcomingMoviesResultPage list \<Rightarrow> bool" where
  "servesChain httpGet Unmarshal w url [] = False"
| "servesChain httpGet Unmarshal w url (p # ps) =
     (case httpGet w url of
        (Inl err, w') \<Rightarrow> False
      | (Inr res, w') \<Rightarrow>
          parseUpcomingMoviesResponse Unmarshal res = Inr p \<and>
          (if ps = [] then \<not> hasKey (Links p) ''next''
           else hasKey (Links p) ''next'' \<and> index (Links p) ''next'' \<noteq> '''' \<and>
                servesChain httpGet Unmarshal w' (index (Links p) ''next'') ps))"

subsection \<open>Example pages, responses and transports\<close>

definition firstPage :: UpcomingMoviesResultPage where
  "firstPage =
     \<lparr>Total = 25, Movies = [], Links = MakeMap [''next'' \<mapsto> ''url2''], LinkTemplate = ''''\<rparr>"

definition lastPage :: UpcomingMoviesResultPage where
  "lastPage = \<lparr>Total = 25, Movies = [], Links = MakeMap Map.empty, LinkTemplate = ''''\<rparr>"

definition blankNextPage :: UpcomingMoviesResultPage where
  "blankNextPage =
     \<lparr>Total = 25, Movies = [], Links = MakeMap [''next'' \<mapsto> ''''], LinkTemplate = ''''\<rparr>"

definition decodeExample :: unmarshal where
  "decodeExample blob =
     (if blob = ''first'' then Inr firstPage
      else if blob = ''last'' then Inr lastPage
      else if blob = ''blank'' then Inr blankNextPage
      else Inl ''invalid character'')"

definition ok :: "string \<Rightarrow> Response" where
  "ok blob = \<lparr>StatusCode = 200, Status = ''200 OK'', Body = Inr blob\<rparr>"

definition notFound :: Response where
  "notFound = \<lparr>StatusCode = 404, Status = ''404 Not Found'', Body = Inr ''''\<rparr>"

text \<open>A transport that answers from a table of URLs and counts the requests it has seen.\<close>

definition served :: "(string \<times> (string + Response)) list \<Rightarrow> nat transport" where
  "served table n url =
     (case map_of table url of
        None \<Rightarrow> (Inl ''no such host'', Suc n)
      | Some r \<Rightarrow> (r, Suc n))"

definition exampleClient :: Client where
  "exampleClient = \<lparr>version = '''', apiKey = ''k''\<rparr>"

definition exampleQuery :: UpcomingMovieSearch where
  "exampleQuery = \<lparr>ItemsPerPage = 10, MaxPage = 2, Country = '''', Cancel = NilChan\<rparr>"

definition cancelledQuery :: UpcomingMovieSearch where
  "cancelledQuery = \<lparr>ItemsPerPage = 10, MaxPage = 2, Country = '''', Cancel = Chan\<rparr>"

definition emptyQuery :: UpcomingMovieSearch where
  "emptyQuery = \<lparr>ItemsPerPage = 0, MaxPage = 0, Country = '''', Cancel = NilChan\<rparr>"

definition exampleURL :: string where
  "exampleURL =
     ''http://api.rottentomatoes.com/api/public/v1.0/lists/movies/upcoming/json?apikey=k&page=2&page_limit=10''"

section \<open>Properties\<close>

subsection \<open>Auxiliary facts\<close>

lemma makeUpcomingMoviesURL_total: "\<exists>u. makeUpcomingMoviesURL c query = Inr u"
  by (simp add: makeUpcomingMoviesURL_def Let_def)

lemma QueryEscape_keys:
  "QueryEscape ''apikey'' = ''apikey''"
  "QueryEscape ''page_limit'' = ''page_limit''"
  "QueryEscape ''page'' = ''page''"
  "QueryEscape ''country'' = ''country''"
  by (simp_all add: QueryEscape_def escapeByte_def unreserved_def)

lemma leadingSpace_TrimLeft: "leadingSpace (TrimLeft s) = None"
proof (induction s rule: TrimLeft.induct)
  case (1 s)
  then show ?case
    by (cases "leadingSpace s") (simp_all add: TrimLeft.simps [of s])
qed

lemma trailingSpace_TrimRight: "trailingSpace (TrimRight s) = None"
proof (induction s rule: TrimRight.induct)
  case (1 s)
  then show ?case
    by (cases "trailingSpace s") (simp_all add: TrimRight.simps [of s])
qed

lemma prefix_TrimRight: "prefix (TrimRight s) s"
proof (induction s rule: TrimRight.induct)
  case (1 s)
  show ?case
  proof (cases "trailingSpace s")
    case None
    then show ?thesis by (simp add: TrimRight.simps [of s])
  next
    case (Some e)
    with 1 have "prefix (TrimRight s) (take (length s - length e) s)"
      by (simp add: TrimRight.simps [of s])
    moreover have "prefix (take (length s - length e) s) s"
      by (rule take_is_prefix)
    ultimately show ?thesis by (rule prefix_order.trans)
  qed
qed

lemma leadingSpace_prefix:
  assumes "leadingSpace s = None" and "prefix t s"
  shows "leadingSpace t = None"
proof -
  from assms(1) have "\<forall>e \<in> set spaceRunes. \<not> prefix e s"
    by (simp add: leadingSpace_def find_None_iff)
  with assms(2) have "\<forall>e \<in> set spaceRunes. \<not> prefix e t"
    by (meson prefix_order.trans)
  then show ?thesis
    by (simp add: leadingSpace_def find_None_iff)
qed

lemma TrimSpace_idem: "TrimSpace (TrimSpace s) = TrimSpace s"
proof -
  have "leadingSpace (TrimSpace s) = None"
    unfolding TrimSpace_def
    by (rule leadingSpace_prefix [OF leadingSpace_TrimLeft prefix_TrimRight])
  then have "TrimLeft (TrimSpace s) = TrimSpace s"
    by (simp add: TrimLeft.simps [of "TrimSpace s"])
  moreover have "trailingSpace (TrimSpace s) = None"
    unfolding TrimSpace_def by (rule trailingSpace_TrimRight)
  then have "TrimRight (TrimSpace s) = TrimSpace s"
    by (simp add: TrimRight.simps [of "TrimSpace s"])
  ultimately show ?thesis
    by (simp add: TrimSpace_def [of "TrimSpace s"])
qed

lemma tryFallbacks_find:
  "tryFallbacks '''' fallbacks =
     (case find (\<lambda>f. TrimSpace f \<noteq> '''') fallbacks of None \<Rightarrow> '''' | Some f \<Rightarrow> TrimSpace f)"
  by (induction fallbacks) (auto simp: Let_def)

lemma envOrDefault_find:
  "envOrDefault getenv key fallbacks =
     (case find (\<lambda>f. TrimSpace f \<noteq> '''') (getenv key # fallbacks) of
        None \<Rightarrow> '''' | Some f \<Rightarrow> TrimSpace f)"
  by (simp add: envOrDefault_def Let_def tryFallbacks_find)

lemma TrimSpace_examples:
  "TrimSpace '''' = ''''"
  "TrimSpace '' '' = ''''"
  "TrimSpace '' k '' = ''k''"
  by code_simp+

subsection \<open>The response parser\<close>

text \<open>
  Claim C6. \<^verbatim>\<open>parseUpcomingMoviesResponse\<close> fails with the error that carries the status
  text of the response exactly when the status code is outside 200..299. For a status
  code inside that range whose body is read and decodes to a page, it returns that page
  as decoded, whatever the page holds: nothing else is checked.
\<close>

theorem parse_status:
  "(parseUpcomingMoviesResponse Unmarshal res = Inl (Errorf (Status res))
      \<longleftrightarrow> \<not> (200 \<le> StatusCode res \<and> StatusCode res \<le> 299)) \<and>
   (200 \<le> StatusCode res \<and> StatusCode res \<le> 299 \<and> Body res = Inr blob \<and> Unmarshal blob = Inr page
      \<longrightarrow> parseUpcomingMoviesResponse Unmarshal res = Inr page)"
  by (auto simp: parseUpcomingMoviesResponse_def statusOK_def split: sum.splits)

theorem parse_status_witness:
  "parseUpcomingMoviesResponse decodeExample
      \<lparr>StatusCode = 404, Status = ''404 Not Found'', Body = Inr ''last''\<rparr>
     = Inl (Errorf ''404 Not Found'') \<and>
   parseUpcomingMoviesResponse decodeExample (ok ''last'')
     = Inr \<lparr>Total = 25, Movies = [], Links = MakeMap Map.empty, LinkTemplate = ''''\<rparr>"
  using parse_status [of decodeExample "\<lparr>StatusCode = 404, Status = ''404 Not Found'', Body = Inr ''last''\<rparr>"]
    parse_status [of decodeExample "ok ''last''" "''last''" lastPage]
  by (simp add: ok_def decodeExample_def lastPage_def)

subsection \<open>The link resolver\<close>

text \<open>
  Claim C7. \<^verbatim>\<open>GetNextURL\<close> is a total function: on a nil receiver, on a nil map and on
  the empty map it returns the empty string; on the map that holds X under \<^verbatim>\<open>next\<close> it
  returns X; on every map it returns the value stored under \<^verbatim>\<open>next\<close>, and the empty
  string when that key is absent.
\<close>

theorem GetNextURL_resolves:
  "GetNextURL None = '''' \<and>
   GetNextURL (Some NilMap) = '''' \<and>
   GetNextURL (Some (MakeMap Map.empty)) = '''' \<and>
   GetNextURL (Some (MakeMap [''next'' \<mapsto> X])) = X \<and>
   GetNextURL (Some (MakeMap m)) = (case m ''next'' of None \<Rightarrow> '''' | Some v \<Rightarrow> v) \<and>
   (\<not> hasKey l ''next'' \<longrightarrow> GetNextURL (Some l) = '''')"
  by (cases l) auto

theorem GetNextURL_resolves_witness:
  "\<not> hasKey (MakeMap [''prev'' \<mapsto> ''P'']) ''next'' \<and>
   GetNextURL (Some (MakeMap [''prev'' \<mapsto> ''P''])) = '''' \<and>
   GetNextURL (Some (MakeMap [''next'' \<mapsto> ''url2''])) = ''url2''"
  using GetNextURL_resolves [where X = "''url2''" and m = "[''prev'' \<mapsto> ''P'']"
      and l = "MakeMap [''prev'' \<mapsto> ''P'']"]
  by simp

subsection \<open>Construction of the client\<close>

text \<open>
  Claim C8. \<^verbatim>\<open>NewDefaultClient\<close> returns the empty-API-key error exactly when the value of
  the environment variable \<^verbatim>\<open>FANDANGO_API_KEY\<close> and every fallback argument trim to the
  empty string. Otherwise it returns a client whose key is the trimmed first candidate,
  the environment value first and then the fallbacks in order, that does not trim to the
  empty string.
\<close>

theorem NewDefaultClient_key:
  "(NewDefaultClient getenv apiKeysToTry = Inl errEmptyAPIKey \<longleftrightarrow>
      (\<forall>k \<in> set (getenv ''FANDANGO_API_KEY'' # apiKeysToTry). TrimSpace k = '''')) \<and>
   (\<forall>k. find (\<lambda>k. TrimSpace k \<noteq> '''') (getenv ''FANDANGO_API_KEY'' # apiKeysToTry) = Some k \<longrightarrow>
      NewDefaultClient getenv apiKeysToTry = Inr \<lparr>version = '''', apiKey = TrimSpace k\<rparr>)"
proof -
  let ?cands = "getenv ''FANDANGO_API_KEY'' # apiKeysToTry"
  let ?found = "find (\<lambda>k. TrimSpace k \<noteq> '''') ?cands"
  show ?thesis
  proof (cases ?found)
    case None
    then have blank: "\<forall>k \<in> set ?cands. TrimSpace k = ''''"
      by (simp only: find_None_iff) blast
    from None have "NewDefaultClient getenv apiKeysToTry = Inl errEmptyAPIKey"
      by (simp add: NewDefaultClient_def envOrDefault_find SetAPIKey_def APIKey_def newClient_def
          TrimSpace_examples del: find.simps)
    with None blank show ?thesis by (simp del: find.simps)
  next
    case (Some k)
    then have k: "k \<in> set ?cands" "TrimSpace k \<noteq> ''''"
      by (auto simp only: find_Some_iff nth_mem)
    from Some k(2) have "NewDefaultClient getenv apiKeysToTry
        = Inr \<lparr>version = '''', apiKey = TrimSpace k\<rparr>"
      by (simp add: NewDefaultClient_def envOrDefault_find SetAPIKey_def APIKey_def newClient_def
          TrimSpace_idem del: find.simps)
    with Some k show ?thesis by (simp del: find.simps) blast
  qed
qed

theorem NewDefaultClient_key_witness:
  "NewDefaultClient (\<lambda>name. '' '') ['''', '' k ''] = Inr \<lparr>version = '''', apiKey = ''k''\<rparr> \<and>
   NewDefaultClient (\<lambda>name. '''') ['' ''] = Inl errEmptyAPIKey"
  using NewDefaultClient_key [of "\<lambda>name. '' ''" "['''', '' k '']"]
    NewDefaultClient_key [of "\<lambda>name. ''''" "['' '']"]
  by (simp add: TrimSpace_examples)

subsection \<open>Starting the engine\<close>

text \<open>
  Claim C9. \<^verbatim>\<open>UpcomingMovies\<close> returns an error, and then no channel and no run of the
  goroutine, exactly when the API key of the client is empty, and the error is the
  empty-API-key error. With a key that is not empty it returns the channel fed by the
  goroutine started on the URL that was built. \<^verbatim>\<open>makeUpcomingMoviesURL\<close> returns no error
  on any client and query.
\<close>

theorem UpcomingMovies_sync_error:
  "(UpcomingMovies httpGet Unmarshal c query w schedule = Inl errEmptyAPIKey \<longleftrightarrow> apiKey c = '''') \<and>
   ((\<exists>err. UpcomingMovies httpGet Unmarshal c query w schedule = Inl err) \<longleftrightarrow> apiKey c = '''') \<and>
   (apiKey c \<noteq> '''' \<longrightarrow>
      (\<exists>url. makeUpcomingMoviesURL c query = Inr url \<and>
         UpcomingMovies httpGet Unmarshal c query w schedule
           = Inr (goroutine httpGet Unmarshal query url w schedule))) \<and>
   (\<forall>err. makeUpcomingMoviesURL c query \<noteq> Inl err)"
  using makeUpcomingMoviesURL_total [of c query]
  by (auto simp: UpcomingMovies_def APIKey_def)

theorem UpcomingMovies_sync_error_witness:
  "apiKey exampleClient \<noteq> '''' \<and>
   (\<exists>url. makeUpcomingMoviesURL exampleClient (Some exampleQuery) = Inr url \<and>
      UpcomingMovies (served []) decodeExample exampleClient (Some exampleQuery) 0 [RecvTick]
        = Inr (goroutine (served []) decodeExample (Some exampleQuery) url 0 [RecvTick])) \<and>
   UpcomingMovies (served []) decodeExample \<lparr>version = '''', apiKey = ''''\<rparr> (Some exampleQuery) 0
      [RecvTick] = Inl errEmptyAPIKey"
  using UpcomingMovies_sync_error [of "served []" decodeExample exampleClient "Some exampleQuery" 0
      "[RecvTick]"]
    UpcomingMovies_sync_error [of "served []" decodeExample "\<lparr>version = '''', apiKey = ''''\<rparr>"
      "Some exampleQuery" 0 "[RecvTick]"]
  by (simp add: exampleClient_def)

subsection \<open>A nil query\<close>

text \<open>
  Claim C10. On a client with a key that is not empty, \<^verbatim>\<open>makeUpcomingMoviesURL\<close> accepts
  the nil query and builds the URL that carries the API key alone, so \<^verbatim>\<open>UpcomingMovies\<close>
  returns a channel; the goroutine then reads \<^verbatim>\<open>query.Cancel\<close> through the nil pointer and
  panics before any request is made and before any page is sent.
\<close>

theorem nil_query_panics:
  "apiKey c \<noteq> '''' \<Longrightarrow>
     makeUpcomingMoviesURL c None
       = Inr (baseURL @ ''/v'' @ APIVersion c @ ''/lists/movies/upcoming/json?apikey='' @ QueryEscape (apiKey c)) \<and>
     (\<exists>s. UpcomingMovies httpGet Unmarshal c None w schedule = Inr s \<and>
          panicked s \<and> pagesChan s = [] \<and> requests s = [])"
  by (simp add: UpcomingMovies_def APIKey_def makeUpcomingMoviesURL_def Encode_def goroutine_def
      QueryEscape_keys)

theorem nil_query_panics_witness:
  "makeUpcomingMoviesURL \<lparr>version = '''', apiKey = ''k''\<rparr> None
     = Inr ''http://api.rottentomatoes.com/api/public/v1.0/lists/movies/upcoming/json?apikey=k'' \<and>
   (\<exists>s. UpcomingMovies (served []) decodeExample \<lparr>version = '''', apiKey = ''k''\<rparr> None 0 []
          = Inr s \<and> panicked s \<and> pagesChan s = [] \<and> requests s = [])"
  using nil_query_panics [of "\<lparr>version = '''', apiKey = ''k''\<rparr>" "served []" decodeExample 0 "[]"]
  by (simp add: baseURL_def APIVersion_def defaultAPIVersion_def QueryEscape_def escapeByte_def
      unreserved_def)

subsection \<open>Runs of the engine\<close>

lemma index_absent: "\<not> hasKey l k \<Longrightarrow> index l k = ''''"
  by (cases l) auto

lemma forWorking_stopped: "\<not> working s \<Longrightarrow> forWorking httpGet Unmarshal evs s = s"
  by (cases evs) simp_all

lemma tick_page:
  assumes "httpGet (net s) (dataURL s) = (Inr res, w')"
    and "parseUpcomingMoviesResponse Unmarshal res = Inr p"
  shows "tick httpGet Unmarshal s =
           s\<lparr>requests := requests s @ [dataURL s], net := w', pagesChan := pagesChan s @ [p],
             dataURL := index (Links p) ''next'',
             working := working s \<and> index (Links p) ''next'' \<noteq> ''''\<rparr>"
  using assms by (simp add: tick_def Let_def)

lemma tick_transport_error:
  assumes "httpGet (net s) (dataURL s) = (Inl err, w')"
  shows "tick httpGet Unmarshal s =
           s\<lparr>requests := requests s @ [dataURL s], net := w', working := False\<rparr>"
  using assms by (simp add: tick_def Let_def)

lemma tick_parse_error:
  assumes "httpGet (net s) (dataURL s) = (Inr res, w')"
    and "parseUpcomingMoviesResponse Unmarshal res = Inl err"
  shows "tick httpGet Unmarshal s =
           s\<lparr>requests := requests s @ [dataURL s], net := w', working := False\<rparr>"
  using assms by (simp add: tick_def Let_def)

lemma forWorking_chain:
  "servesChain httpGet Unmarshal (net s) (dataURL s) ps \<Longrightarrow> working s \<Longrightarrow>
   RecvCancel \<notin> set evs \<Longrightarrow> length ps \<le> length evs \<Longrightarrow>
   pagesChan (forWorking httpGet Unmarshal evs s) = pagesChan s @ ps \<and>
   \<not> working (forWorking httpGet Unmarshal evs s) \<and>
   panicked (forWorking httpGet Unmarshal evs s) = panicked s \<and>
   requests (forWorking httpGet Unmarshal evs s)
     = requests s @ dataURL s # map (\<lambda>p. index (Links p) ''next'') (butlast ps)"
proof (induction ps arbitrary: s evs)
  case Nil
  then show ?case by simp
next
  case (Cons p ps)
  from Cons.prems(4) obtain e evs' where evs: "evs = e # evs'"
    by (cases evs) auto
  with Cons.prems(3) have e: "e = RecvTick"
    by (cases e) auto
  from Cons.prems(1) obtain res w' where
    get: "httpGet (net s) (dataURL s) = (Inr res, w')" and
    parse: "parseUpcomingMoviesResponse Unmarshal res = Inr p" and
    rest: "if ps = [] then \<not> hasKey (Links p) ''next''
           else hasKey (Links p) ''next'' \<and> index (Links p) ''next'' \<noteq> '''' \<and>
                servesChain httpGet Unmarshal w' (index (Links p) ''next'') ps"
    by (auto split: prod.splits sum.splits)
  let ?t = "tick httpGet Unmarshal s"
  note t = tick_page [of httpGet s res w' Unmarshal p, OF get parse]
  have step: "forWorking httpGet Unmarshal evs s = forWorking httpGet Unmarshal evs' ?t"
    using Cons.prems(2) by (simp add: evs e)
  show ?case
  proof (cases "ps = []")
    case True
    with rest have nxt: "index (Links p) ''next'' = ''''"
      by (simp add: index_absent)
    then have "\<not> working ?t" by (simp add: t)
    then have stop: "forWorking httpGet Unmarshal evs' ?t = ?t"
      by (rule forWorking_stopped)
    show ?thesis unfolding step stop using True nxt by (simp add: t)
  next
    case False
    with rest have nxt: "index (Links p) ''next'' \<noteq> ''''"
      and chain: "servesChain httpGet Unmarshal (net ?t) (dataURL ?t) ps"
      by (simp_all add: t)
    have "working ?t" using Cons.prems(2) nxt by (simp add: t)
    moreover have "RecvCancel \<notin> set evs'" using Cons.prems(3) by (simp add: evs)
    moreover have "length ps \<le> length evs'" using Cons.prems(4) by (simp add: evs)
    ultimately have IH:
      "pagesChan (forWorking httpGet Unmarshal evs' ?t) = pagesChan ?t @ ps \<and>
       \<not> working (forWorking httpGet Unmarshal evs' ?t) \<and>
       panicked (forWorking httpGet Unmarshal evs' ?t) = panicked ?t \<and>
       requests (forWorking httpGet Unmarshal evs' ?t)
         = requests ?t @ dataURL ?t # map (\<lambda>p. index (Links p) ''next'') (butlast ps)"
      using Cons.IH [OF chain] by blast
    then show ?thesis unfolding step using False by (simp add: t)
  qed
qed

text \<open>
  Claim C1. Take a client with a key, a query, a schedule without a cancellation that has
  at least as many ticks as there are pages, and a transport that serves a chain of pages
  from the URL built for the query: every page but the last names the URL of the
  following page under \<^verbatim>\<open>next\<close>, the last page has no \<^verbatim>\<open>next\<close> entry. Then
  \<^verbatim>\<open>UpcomingMovies\<close> returns a channel that receives exactly the pages of the chain, in
  the order of the chain, and is then closed; the goroutine does not panic, and the
  requests made are the URL built and, in order, the \<^verbatim>\<open>next\<close> URLs of all pages but the
  last.
\<close>

theorem chain_emitted:
  assumes "apiKey c \<noteq> ''''"
    and "makeUpcomingMoviesURL c (Some q) = Inr url"
    and "servesChain httpGet Unmarshal w url ps"
    and "RecvCancel \<notin> set schedule"
    and "length ps \<le> length schedule"
  shows "\<exists>s. UpcomingMovies httpGet Unmarshal c (Some q) w schedule = Inr s \<and>
             pagesChan s = ps \<and> closed s \<and> \<not> panicked s \<and>
             requests s = url # map (\<lambda>p. index (Links p) ''next'') (butlast ps)"
proof -
  let ?s0 = "\<lparr>dataURL = url, working = True, pagesChan = [], closed = False,
              panicked = False, requests = [], net = w\<rparr>"
  have "servesChain httpGet Unmarshal (net ?s0) (dataURL ?s0) ps" "working ?s0"
    using assms(3) by simp_all
  from forWorking_chain [OF this assms(4,5)] assms(1,2) show ?thesis
    by (simp add: UpcomingMovies_def APIKey_def goroutine_def Let_def)
qed

lemma makeUpcomingMoviesURL_example:
  "makeUpcomingMoviesURL exampleClient (Some exampleQuery) = Inr exampleURL"
  "makeUpcomingMoviesURL exampleClient (Some cancelledQuery) = Inr exampleURL"
  by code_simp+

lemmas example_defs =
  served_def ok_def notFound_def decodeExample_def parseUpcomingMoviesResponse_def statusOK_def
  firstPage_def lastPage_def blankNextPage_def exampleURL_def

theorem chain_emitted_witness:
  "apiKey exampleClient \<noteq> '''' \<and>
   makeUpcomingMoviesURL exampleClient (Some exampleQuery) = Inr exampleURL \<and>
   servesChain (served [(exampleURL, Inr (ok ''first'')), (''url2'', Inr (ok ''last''))])
     decodeExample 0 exampleURL [firstPage, lastPage] \<and>
   RecvCancel \<notin> set [RecvTick, RecvTick, RecvTick] \<and>
   (\<exists>s. UpcomingMovies (served [(exampleURL, Inr (ok ''first'')), (''url2'', Inr (ok ''last''))])
          decodeExample exampleClient (Some exampleQuery) 0 [RecvTick, RecvTick, RecvTick] = Inr s \<and>
        pagesChan s = [firstPage, lastPage] \<and> closed s \<and> \<not> panicked s \<and>
        requests s = [exampleURL, ''url2''])"
proof -
  let ?g = "served [(exampleURL, Inr (ok ''first'')), (''url2'', Inr (ok ''last''))]"
  have 1: "apiKey exampleClient \<noteq> ''''"
    by (simp add: exampleClient_def)
  have 2: "makeUpcomingMoviesURL exampleClient (Some exampleQuery) = Inr exampleURL"
    by (rule makeUpcomingMoviesURL_example)
  have 3: "servesChain ?g decodeExample 0 exampleURL [firstPage, lastPage]"
    by (simp add: example_defs)
  have 4: "RecvCancel \<notin> set [RecvTick, RecvTick, RecvTick]"
    by simp
  have 5: "length [firstPage, lastPage] \<le> length [RecvTick, RecvTick, RecvTick]"
    by simp
  have 6: "index (Links firstPage) ''next'' = ''url2''"
    by (simp add: firstPage_def)
  from chain_emitted [OF 1 2 3 4 5] 1 2 3 4 6 show ?thesis
    by simp
qed

text \<open>
  Claim C5. Take a client with a key, a query and a schedule without a cancellation that
  has at least two ticks. If the request for the URL built is answered by a response
  that parses to a page, that page names a following URL under \<^verbatim>\<open>next\<close>, and the request
  for that URL is answered with a status code outside 200..299, then the channel
  receives the first page alone and is then closed: no second page, and nothing that
  carries the error.
\<close>

theorem non2xx_second_page:
  assumes "apiKey c \<noteq> ''''"
    and "makeUpcomingMoviesURL c (Some q) = Inr url"
    and "httpGet w url = (Inr res1, w1)"
    and "parseUpcomingMoviesResponse Unmarshal res1 = Inr p1"
    and "index (Links p1) ''next'' \<noteq> ''''"
    and "httpGet w1 (index (Links p1) ''next'') = (Inr res2, w2)"
    and "StatusCode res2 < 200 \<or> 299 < StatusCode res2"
    and "RecvCancel \<notin> set schedule"
    and "2 \<le> length schedule"
  shows "\<exists>s. UpcomingMovies httpGet Unmarshal c (Some q) w schedule = Inr s \<and>
             pagesChan s = [p1] \<and> closed s \<and> \<not> panicked s \<and>
             requests s = [url, index (Links p1) ''next'']"
proof -
  let ?s0 = "\<lparr>dataURL = url, working = True, pagesChan = [], closed = False,
              panicked = False, requests = [], net = w\<rparr>"
  let ?s1 = "\<lparr>dataURL = index (Links p1) ''next'', working = True, pagesChan = [p1],
              closed = False, panicked = False, requests = [url], net = w1\<rparr>"
  let ?s2 = "\<lparr>dataURL = index (Links p1) ''next'', working = False, pagesChan = [p1],
              closed = False, panicked = False, requests = [url, index (Links p1) ''next''],
              net = w2\<rparr>"
  from assms(9) obtain e1 e2 evs where sched: "schedule = e1 # e2 # evs"
    by (cases schedule; cases "tl schedule") auto
  with assms(8) have e: "e1 = RecvTick" "e2 = RecvTick"
    by (cases e1; cases e2; simp)+
  have t1: "tick httpGet Unmarshal ?s0 = ?s1"
    using tick_page [of httpGet ?s0 res1 w1 Unmarshal p1] assms(3,4,5) by simp
  from assms(7) have "parseUpcomingMoviesResponse Unmarshal res2 = Inl (Errorf (Status res2))"
    by (auto simp: parseUpcomingMoviesResponse_def statusOK_def)
  with assms(6) have t2: "tick httpGet Unmarshal ?s1 = ?s2"
    using tick_parse_error [of httpGet ?s1 res2 w2 Unmarshal "Errorf (Status res2)"]
    by simp
  have "forWorking httpGet Unmarshal schedule ?s0 = forWorking httpGet Unmarshal evs ?s2"
    by (simp add: sched e t1 t2)
  also have "\<dots> = ?s2"
    by (rule forWorking_stopped) simp
  finally have "forWorking httpGet Unmarshal schedule ?s0 = ?s2" .
  with assms(1,2) show ?thesis
    by (simp add: UpcomingMovies_def APIKey_def goroutine_def Let_def)
qed

theorem non2xx_second_page_witness:
  "apiKey exampleClient \<noteq> '''' \<and>
   makeUpcomingMoviesURL exampleClient (Some exampleQuery) = Inr exampleURL \<and>
   served [(exampleURL, Inr (ok ''first'')), (''url2'', Inr notFound)] 0 exampleURL
     = (Inr (ok ''first''), 1) \<and>
   parseUpcomingMoviesResponse decodeExample (ok ''first'') = Inr firstPage \<and>
   index (Links firstPage) ''next'' = ''url2'' \<and>
   served [(exampleURL, Inr (ok ''first'')), (''url2'', Inr notFound)] 1 ''url2''
     = (Inr notFound, 2) \<and>
   StatusCode notFound = 404 \<and>
   (\<exists>s. UpcomingMovies (served [(exampleURL, Inr (ok ''first'')), (''url2'', Inr notFound)])
          decodeExample exampleClient (Some exampleQuery) 0 [RecvTick, RecvTick] = Inr s \<and>
        pagesChan s = [firstPage] \<and> closed s \<and> \<not> panicked s \<and>
        requests s = [exampleURL, ''url2''])"
proof -
  let ?g = "served [(exampleURL, Inr (ok ''first'')), (''url2'', Inr notFound)]"
  have 1: "apiKey exampleClient \<noteq> ''''"
    by (simp add: exampleClient_def)
  have 2: "makeUpcomingMoviesURL exampleClient (Some exampleQuery) = Inr exampleURL"
    by (rule makeUpcomingMoviesURL_example)
  have 3: "?g 0 exampleURL = (Inr (ok ''first''), 1)"
    by (simp add: served_def)
  have 4: "parseUpcomingMoviesResponse decodeExample (ok ''first'') = Inr firstPage"
    by (simp add: example_defs)
  have 6: "index (Links firstPage) ''next'' = ''url2''"
    by (simp add: firstPage_def)
  have 5: "index (Links firstPage) ''next'' \<noteq> ''''"
    by (simp add: 6)
  have 7: "?g 1 (index (Links firstPage) ''next'') = (Inr notFound, 2)"
    by (simp add: 6 served_def exampleURL_def)
  have 8: "StatusCode notFound < 200 \<or> 299 < StatusCode notFound"
    by (simp add: notFound_def)
  have 9: "RecvCancel \<notin> set [RecvTick, RecvTick]" "2 \<le> length [RecvTick, RecvTick]"
    by simp_all
  have 10: "StatusCode notFound = 404"
    by (simp add: notFound_def)
  from non2xx_second_page [OF 1 2 3 4 5 7 8 9] 1 2 3 4 6 7 10 show ?thesis
    by simp
qed

subsection \<open>Cancellation\<close>

lemma apiKey_example: "apiKey exampleClient = ''k''"
  by (simp add: exampleClient_def)

lemma selectStmt_cancel:
  "forWorking httpGet Unmarshal (RecvCancel # evs) s = forWorking httpGet Unmarshal evs s"
  by (cases "working s") (simp_all add: forWorking_stopped)

text \<open>
  Claim C2. The case of the \<^verbatim>\<open>select\<close> that receives from \<^verbatim>\<open>query.Cancel\<close> ends in a
  \<^verbatim>\<open>break\<close>, which leaves the \<^verbatim>\<open>select\<close> and not the loop, and \<^verbatim>\<open>working\<close> stays true. On
  a query whose cancellation is received before the first tick, and a transport that
  serves one last page, the run is therefore: after the cancellation alone the engine is
  still working, has sent nothing and has not closed the channel; at the tick that
  follows it makes the request, sends the page and only then closes the channel. The
  claim asks for no page and a closed channel.
\<close>

theorem cancel_before_first_tick:
  "UpcomingMovies (served [(exampleURL, Inr (ok ''last''))]) decodeExample exampleClient
      (Some cancelledQuery) 0 [RecvCancel, RecvTick]
     = Inr \<lparr>dataURL = '''', working = False, pagesChan = [lastPage], closed = True,
            panicked = False, requests = [exampleURL], net = 1\<rparr> \<and>
   UpcomingMovies (served [(exampleURL, Inr (ok ''last''))]) decodeExample exampleClient
      (Some cancelledQuery) 0 [RecvCancel]
     = Inr \<lparr>dataURL = exampleURL, working = True, pagesChan = [], closed = False,
            panicked = False, requests = [], net = 0\<rparr>"
  by (simp add: UpcomingMovies_def APIKey_def apiKey_example makeUpcomingMoviesURL_example
      goroutine_def tick_def Let_def served_def ok_def decodeExample_def
      parseUpcomingMoviesResponse_def statusOK_def lastPage_def)

subsection \<open>When a running engine stops\<close>

text \<open>
  Claim C4, as stated, fails on a page whose links map holds the empty string under
  \<^verbatim>\<open>next\<close>: the key is there, and the engine sends the page, stops and closes the channel
  without a second request.
\<close>

theorem blank_next_stops:
  "hasKey (Links blankNextPage) ''next'' \<and>
   UpcomingMovies (served [(exampleURL, Inr (ok ''blank'')), ('''', Inr (ok ''last''))])
      decodeExample exampleClient (Some exampleQuery) 0 [RecvTick, RecvTick]
     = Inr \<lparr>dataURL = '''', working = False, pagesChan = [blankNextPage], closed = True,
            panicked = False, requests = [exampleURL], net = 1\<rparr>"
  by (simp add: UpcomingMovies_def APIKey_def apiKey_example makeUpcomingMoviesURL_example
      goroutine_def tick_def Let_def served_def ok_def decodeExample_def
      parseUpcomingMoviesResponse_def statusOK_def blankNextPage_def)

text \<open>
  Claim C4, amended. A tick of a running engine stops it exactly when the transport
  returns an error, or the response does not parse, or the page that was sent has the
  empty string as its \<^verbatim>\<open>next\<close> URL (the key is absent, or it holds the empty string). For
  every page sent whose \<^verbatim>\<open>next\<close> URL is not empty the engine keeps running, with that URL
  as the URL of its next request.
\<close>

theorem tick_stops_iff:
  "working s \<Longrightarrow>
     (\<not> working (tick httpGet Unmarshal s) \<longleftrightarrow>
        (\<exists>err w'. httpGet (net s) (dataURL s) = (Inl err, w')) \<or>
        (\<exists>res w' err. httpGet (net s) (dataURL s) = (Inr res, w') \<and>
           parseUpcomingMoviesResponse Unmarshal res = Inl err) \<or>
        (\<exists>res w' page. httpGet (net s) (dataURL s) = (Inr res, w') \<and>
           parseUpcomingMoviesResponse Unmarshal res = Inr page \<and>
           index (Links page) ''next'' = '''')) \<and>
     (httpGet (net s) (dataURL s) = (Inr res, w') \<and>
      parseUpcomingMoviesResponse Unmarshal res = Inr page \<and>
      index (Links page) ''next'' \<noteq> '''' \<longrightarrow>
        working (tick httpGet Unmarshal s) \<and>
        pagesChan (tick httpGet Unmarshal s) = pagesChan s @ [page] \<and>
        dataURL (tick httpGet Unmarshal s) = index (Links page) ''next'' \<and>
        requests (tick httpGet Unmarshal (tick httpGet Unmarshal s))
          = requests s @ [dataURL s, index (Links page) ''next''])"
proof (intro conjI impI)
  assume w: "working s"
  show "\<not> working (tick httpGet Unmarshal s) \<longleftrightarrow>
        (\<exists>err w'. httpGet (net s) (dataURL s) = (Inl err, w')) \<or>
        (\<exists>res w' err. httpGet (net s) (dataURL s) = (Inr res, w') \<and>
           parseUpcomingMoviesResponse Unmarshal res = Inl err) \<or>
        (\<exists>res w' page. httpGet (net s) (dataURL s) = (Inr res, w') \<and>
           parseUpcomingMoviesResponse Unmarshal res = Inr page \<and>
           index (Links page) ''next'' = '''')"
  proof (cases "httpGet (net s) (dataURL s)")
    case (Pair r w1)
    show ?thesis
    proof (cases r)
      case (Inl err)
      with Pair show ?thesis
        by (simp add: tick_transport_error [of httpGet s err w1 Unmarshal])
    next
      case (Inr res1)
      show ?thesis
      proof (cases "parseUpcomingMoviesResponse Unmarshal res1")
        case (Inl err)
        with Pair \<open>r = Inr res1\<close> show ?thesis
          by (simp add: tick_parse_error [of httpGet s res1 w1 Unmarshal err])
      next
        case (Inr p)
        with Pair \<open>r = Inr res1\<close> w show ?thesis
          by (simp add: tick_page [of httpGet s res1 w1 Unmarshal p])
      qed
    qed
  qed
next
  assume w: "working s"
    and h: "httpGet (net s) (dataURL s) = (Inr res, w') \<and>
            parseUpcomingMoviesResponse Unmarshal res = Inr page \<and>
            index (Links page) ''next'' \<noteq> ''''"
  note t = tick_page [of httpGet s res w' Unmarshal page]
  have r: "requests (tick httpGet Unmarshal u) = requests u @ [dataURL u]" for u
    by (simp add: tick_def Let_def split: prod.splits sum.splits)
  from w h show "working (tick httpGet Unmarshal s)" by (simp add: t)
  from h show "pagesChan (tick httpGet Unmarshal s) = pagesChan s @ [page]" by (simp add: t)
  from h show "dataURL (tick httpGet Unmarshal s) = index (Links page) ''next''" by (simp add: t)
  from h show "requests (tick httpGet Unmarshal (tick httpGet Unmarshal s))
          = requests s @ [dataURL s, index (Links page) ''next'']"
    by (simp add: r t)
qed

theorem tick_stops_iff_witness:
  "working \<lparr>dataURL = ''url1'', working = True, pagesChan = [], closed = False,
            panicked = False, requests = [], net = 0\<rparr> \<and>
   served [(''url1'', Inr (ok ''first'')), (''url2'', Inr (ok ''last''))] 0 ''url1''
     = (Inr (ok ''first''), 1) \<and>
   parseUpcomingMoviesResponse decodeExample (ok ''first'') = Inr firstPage \<and>
   index (Links firstPage) ''next'' = ''url2'' \<and>
   tick (served [(''url1'', Inr (ok ''first'')), (''url2'', Inr (ok ''last''))]) decodeExample
     \<lparr>dataURL = ''url1'', working = True, pagesChan = [], closed = False,
      panicked = False, requests = [], net = 0\<rparr>
     = \<lparr>dataURL = ''url2'', working = True, pagesChan = [firstPage], closed = False,
        panicked = False, requests = [''url1''], net = 1\<rparr> \<and>
   requests
     (tick (served [(''url1'', Inr (ok ''first'')), (''url2'', Inr (ok ''last''))]) decodeExample
        (tick (served [(''url1'', Inr (ok ''first'')), (''url2'', Inr (ok ''last''))]) decodeExample
           \<lparr>dataURL = ''url1'', working = True, pagesChan = [], closed = False,
            panicked = False, requests = [], net = 0\<rparr>))
     = [''url1'', ''url2'']"
  using tick_stops_iff [of "\<lparr>dataURL = ''url1'', working = True, pagesChan = [], closed = False,
        panicked = False, requests = [], net = 0\<rparr>"
      "served [(''url1'', Inr (ok ''first'')), (''url2'', Inr (ok ''last''))]" decodeExample
      "ok ''first''" 1 firstPage]
  by (simp add: tick_def Let_def example_defs)

subsection \<open>The URL of a query\<close>

lemma formatInt_examples: "formatInt 10 = ''10''" "formatInt 2 = ''2''"
  by code_simp+

lemma upperhex_no_delim:
  assumes "n < 16"
  shows "upperhex ! n \<noteq> CHR ''&'' \<and> upperhex ! n \<noteq> CHR ''=''"
proof -
  have "length upperhex = 16"
    by (simp add: upperhex_def)
  with assms have "upperhex ! n \<in> set upperhex"
    by simp
  moreover have "CHR ''&'' \<notin> set upperhex" "CHR ''='' \<notin> set upperhex"
    by (simp_all add: upperhex_def)
  ultimately show ?thesis
    by metis
qed

lemma escapeByte_no_delim:
  "CHR ''&'' \<notin> set (escapeByte c) \<and> CHR ''='' \<notin> set (escapeByte c)"
proof -
  have "(of_char c :: nat) < 256" by simp
  then have "(of_char c :: nat) div 16 < 16" "(of_char c :: nat) mod 16 < 16"
    by arith+
  then show ?thesis
    using upperhex_no_delim [of "of_char c div 16"] upperhex_no_delim [of "of_char c mod 16"]
    by (auto simp: escapeByte_def unreserved_def)
qed

lemma QueryEscape_no_delim:
  "CHR ''&'' \<notin> set (QueryEscape s)" "CHR ''='' \<notin> set (QueryEscape s)"
  using escapeByte_no_delim by (auto simp: QueryEscape_def)

lemma splitOn_nosep: "sep \<notin> set xs \<Longrightarrow> splitOn sep xs = [xs]"
  by (induction xs) auto

lemma splitOn_append:
  "sep \<notin> set xs \<Longrightarrow> splitOn sep (xs @ sep # ys) = xs # splitOn sep ys"
  by (induction xs) auto

lemma takeWhile_append_sep:
  "sep \<notin> set xs \<Longrightarrow> takeWhile (\<lambda>c. c \<noteq> sep) (xs @ sep # ys) = xs"
  by (induction xs) auto

lemma Contains_prefix: "prefix sub s \<Longrightarrow> Contains s sub"
  by (cases s) auto

lemma Contains_append: "Contains (p @ sub @ t) sub"
  by (induction p) (auto simp: Contains_prefix)

lemma query_part:
  "drop 1 (dropWhile (\<lambda>c. c \<noteq> CHR ''?'') (baseURL @ ''/v1.0/lists/movies/upcoming/json?'' @ rest))
     = rest"
  by (simp add: baseURL_def)

lemma Encode_full:
  "Encode [(''apikey'', [k]), (''page_limit'', [''10'']), (''page'', [''2''])]
     = ''apikey='' @ QueryEscape k @ ''&page=2&page_limit=10''"
  by (simp add: Encode_def QueryEscape_keys)
    (simp add: QueryEscape_def escapeByte_def unreserved_def)

lemma Encode_key: "Encode [(''apikey'', [k])] = ''apikey='' @ QueryEscape k"
  by (simp add: Encode_def QueryEscape_keys)

lemma queryParams_full:
  "queryParams (baseURL @ ''/v1.0/lists/movies/upcoming/json?apikey='' @ QueryEscape k
      @ ''&page=2&page_limit=10'') = [''apikey'', ''page'', ''page_limit'']"
proof -
  have "splitOn (CHR ''&'') ((''apikey='' @ QueryEscape k) @ CHR ''&'' # ''page=2&page_limit=10'')
          = (''apikey='' @ QueryEscape k) # splitOn (CHR ''&'') ''page=2&page_limit=10''"
    by (rule splitOn_append) (simp add: QueryEscape_no_delim)
  then have "splitOn (CHR ''&'') (''apikey='' @ QueryEscape k @ ''&page=2&page_limit=10'')
          = [''apikey='' @ QueryEscape k, ''page=2'', ''page_limit=10'']"
    by simp
  with query_part [of "''apikey='' @ QueryEscape k @ ''&page=2&page_limit=10''"]
  show ?thesis
    by (simp add: queryParams_def)
qed

lemma queryParams_key:
  "queryParams (baseURL @ ''/v1.0/lists/movies/upcoming/json?apikey='' @ QueryEscape k)
     = [''apikey'']"
proof -
  have "splitOn (CHR ''&'') (''apikey='' @ QueryEscape k) = [''apikey='' @ QueryEscape k]"
    by (rule splitOn_nosep) (simp add: QueryEscape_no_delim)
  with query_part [of "''apikey='' @ QueryEscape k"]
  show ?thesis
    by (simp add: queryParams_def)
qed

text \<open>
  Claim C3, as stated, fails: \<^verbatim>\<open>url.Values.Encode\<close> writes the parameters sorted by name,
  so \<^verbatim>\<open>page\<close> comes before \<^verbatim>\<open>page_limit\<close>. For the client with key \<^verbatim>\<open>k\<close> and API version
  1.0 and the query with 10 items per page, page 2 and no country, the URL built does
  not contain \<^verbatim>\<open>page_limit=10&page=2\<close>.
\<close>

theorem page_limit_not_before_page:
  "APIVersion exampleClient = ''1.0'' \<and>
   makeUpcomingMoviesURL exampleClient (Some exampleQuery)
     = Inr ''http://api.rottentomatoes.com/api/public/v1.0/lists/movies/upcoming/json?apikey=k&page=2&page_limit=10'' \<and>
   \<not> Contains
       ''http://api.rottentomatoes.com/api/public/v1.0/lists/movies/upcoming/json?apikey=k&page=2&page_limit=10''
       ''page_limit=10&page=2''"
  by code_simp

text \<open>
  Claim C3, amended. For a client whose API version is 1.0, the URL built for a query
  with 10 items per page, page 2 and the empty country is the base URL, the path
  \<^verbatim>\<open>/v1.0/lists/movies/upcoming/json\<close> and the query string made of the escaped API key
  followed by \<^verbatim>\<open>&page=2&page_limit=10\<close>: it contains \<^verbatim>\<open>page=2&page_limit=10\<close>, and its
  parameters are \<^verbatim>\<open>apikey\<close>, \<^verbatim>\<open>page\<close> and \<^verbatim>\<open>page_limit\<close>, so there is no \<^verbatim>\<open>country\<close>
  parameter. The URL built for a query whose fields are all zero or empty has the API
  key as its only parameter.
\<close>

theorem url_for_query:
  assumes "APIVersion c = ''1.0''"
    and "ItemsPerPage q = 10" and "MaxPage q = 2" and "Country q = ''''"
    and "ItemsPerPage z = 0" and "MaxPage z = 0" and "Country z = ''''"
  shows "makeUpcomingMoviesURL c (Some q)
           = Inr (baseURL @ ''/v1.0/lists/movies/upcoming/json?apikey='' @ QueryEscape (apiKey c)
                    @ ''&page=2&page_limit=10'') \<and>
         makeUpcomingMoviesURL c (Some z)
           = Inr (baseURL @ ''/v1.0/lists/movies/upcoming/json?apikey='' @ QueryEscape (apiKey c)) \<and>
         (\<forall>u. makeUpcomingMoviesURL c (Some q) = Inr u \<longrightarrow>
            Contains u ''page=2&page_limit=10'' \<and>
            queryParams u = [''apikey'', ''page'', ''page_limit'']) \<and>
         (\<forall>u. makeUpcomingMoviesURL c (Some z) = Inr u \<longrightarrow> queryParams u = [''apikey''])"
proof -
  have q: "makeUpcomingMoviesURL c (Some q)
           = Inr (baseURL @ ''/v1.0/lists/movies/upcoming/json?apikey='' @ QueryEscape (apiKey c)
                    @ ''&page=2&page_limit=10'')"
    using assms(1-4)
    by (simp add: makeUpcomingMoviesURL_def ValuesSet_def formatInt_examples Encode_full)
  have z: "makeUpcomingMoviesURL c (Some z)
           = Inr (baseURL @ ''/v1.0/lists/movies/upcoming/json?apikey='' @ QueryEscape (apiKey c))"
    using assms(1,5-7)
    by (simp add: makeUpcomingMoviesURL_def Encode_key)
  have c: "Contains (baseURL @ ''/v1.0/lists/movies/upcoming/json?apikey='' @ QueryEscape (apiKey c)
                    @ ''&page=2&page_limit=10'') ''page=2&page_limit=10''"
    using Contains_append [of "baseURL @ ''/v1.0/lists/movies/upcoming/json?apikey='' @ QueryEscape (apiKey c) @ ''&''"
        "''page=2&page_limit=10''" "[]"]
    by simp
  show ?thesis
    unfolding q z using c queryParams_full [of "apiKey c"] queryParams_key [of "apiKey c"]
    by simp
qed

theorem url_for_query_witness:
  "APIVersion exampleClient = ''1.0'' \<and>
   ItemsPerPage exampleQuery = 10 \<and> MaxPage exampleQuery = 2 \<and> Country exampleQuery = '''' \<and>
   ItemsPerPage emptyQuery = 0 \<and> MaxPage emptyQuery = 0 \<and> Country emptyQuery = '''' \<and>
   makeUpcomingMoviesURL exampleClient (Some exampleQuery)
     = Inr ''http://api.rottentomatoes.com/api/public/v1.0/lists/movies/upcoming/json?apikey=k&page=2&page_limit=10'' \<and>
   makeUpcomingMoviesURL exampleClient (Some emptyQuery)
     = Inr ''http://api.rottentomatoes.com/api/public/v1.0/lists/movies/upcoming/json?apikey=k''"
proof -
  have 1: "APIVersion exampleClient = ''1.0''"
    by (simp add: APIVersion_def exampleClient_def defaultAPIVersion_def)
  have 2: "ItemsPerPage exampleQuery = 10" "MaxPage exampleQuery = 2" "Country exampleQuery = ''''"
    by (simp_all add: exampleQuery_def)
  have 3: "ItemsPerPage emptyQuery = 0" "MaxPage emptyQuery = 0" "Country emptyQuery = ''''"
    by (simp_all add: emptyQuery_def)
  have 4: "QueryEscape (apiKey exampleClient) = ''k''"
    by (simp add: exampleClient_def QueryEscape_def escapeByte_def unreserved_def)
  from url_for_query [OF 1 2 3] 1 2 3 show ?thesis
    by (simp add: 4 baseURL_def)
qed

end
